theory Spec2Isabelle
  imports Main "HOL-Library.Word" "HOL-Library.Sublist"
begin

unbundle bit_operations_syntax

section \<open>The audio player (audio\_util.py, class AudioPlayerAsync)\<close>

text \<open>
  A queued chunk is a one-dimensional numpy array of dtype int16, here a list of 16-bit
  words. The raw PCM handed to \<open>add_data\<close> is a Python \<open>bytes\<close> value, a list of 8-bit
  words. The sounddevice output stream is represented by the flag \<open>stream_active\<close>
  (set by \<open>stream.start()\<close>, cleared by \<open>stream.stop()\<close>). In \<open>start\<close>, \<open>stop\<close> and
  \<open>add_data\<close> the device calls return; \<open>start_dev\<close> and \<open>add_data_dev\<close> further down
  take the answer of \<open>stream.start()\<close> as a parameter. \<open>_frame_count\<close> is an unbounded
  Python integer that only grows from 0.
\<close>

type_synonym sample = "16 word"
type_synonym byte = "8 word"

datatype py_exn =
    ValueError
  | AttributeError
  | IndexError
  | BinasciiError
  | RemoteError string
  | DeviceError string

record player =
  queue :: "sample list list"
  playing :: bool
  frame_count :: nat
  stream_active :: bool

definition player_init :: player where
  "player_init = \<lparr>queue = [], playing = False, frame_count = 0, stream_active = False\<rparr>"

text \<open>
  The while loop of \<open>callback\<close>:
  \<^verbatim>\<open>
  data = np.empty(0, dtype=np.int16)
  while len(data) < frames and len(self.queue) > 0:
      item = self.queue.pop(0)
      frames_needed = frames - len(data)
      data = np.concatenate((data, item[:frames_needed]))
      if len(item) > frames_needed:
          self.queue.insert(0, item[frames_needed:])
  \<close>
  \<open>item[:frames_needed]\<close> is \<open>take\<close>, \<open>item[frames_needed:]\<close> is \<open>drop\<close>
  (\<open>frames_needed\<close> is positive inside the loop), \<open>queue.pop(0)\<close> splits head and
  tail, \<open>queue.insert(0, r)\<close> conses \<open>r\<close>.
\<close>

function fill :: "nat \<Rightarrow> sample list \<Rightarrow> sample list list \<Rightarrow> sample list \<times> sample list list" where
  "fill frames data q =
     (if length data < frames \<and> length q > 0 then
        (let item = hd q;
             q1 = tl q;
             frames_needed = frames - length data;
             data1 = data @ take frames_needed item;
             q2 = (if length item > frames_needed then drop frames_needed item # q1 else q1)
         in fill frames data1 q2)
      else (data, q))"
  by pat_completeness auto
termination
  by (relation "measure (\<lambda>(frames, data, q). 2 * length q + (if length data < frames then 1 else 0))")
     (auto simp: Let_def)

declare fill.simps [simp del]

text \<open>
  \<open>callback(outdata, frames, time, status)\<close>: the result pairs the block written to
  \<open>outdata\<close> with the updated player. After the loop:
  \<^verbatim>\<open>
  self._frame_count += len(data)
  if len(data) < frames:
      data = np.concatenate((data, np.zeros(frames - len(data), dtype=np.int16)))
  outdata[:] = data.reshape(-1, 1)
  \<close>
\<close>

definition callback :: "nat \<Rightarrow> player \<Rightarrow> sample list \<times> player" where
  "callback frames p =
     (let (data, q') = fill frames [] (queue p);
          p' = p\<lparr>queue := q', frame_count := frame_count p + length data\<rparr>;
          out = (if length data < frames then data @ replicate (frames - length data) 0 else data)
      in (out, p'))"

definition reset_frame_count :: "player \<Rightarrow> player" where
  "reset_frame_count p = p\<lparr>frame_count := 0\<rparr>"

definition get_frame_count :: "player \<Rightarrow> nat" where
  "get_frame_count p = frame_count p"

definition start :: "player \<Rightarrow> player" where
  "start p = p\<lparr>playing := True, stream_active := True\<rparr>"

definition stop :: "player \<Rightarrow> player" where
  "stop p = p\<lparr>playing := False, stream_active := False, queue := []\<rparr>"

text \<open>
  \<open>np.frombuffer(data, dtype=np.int16)\<close>: two bytes per sample, least significant byte
  first; a buffer of odd length raises ValueError (here \<open>None\<close>). Then \<open>add_data\<close>:
  \<^verbatim>\<open>
  np_data = np.frombuffer(data, dtype=np.int16)
  self.queue.append(np_data)
  if not self.playing:
      self.start()
  \<close>
\<close>

fun frombuffer :: "byte list \<Rightarrow> sample list option" where
  "frombuffer [] = Some []"
| "frombuffer [b] = None"
| "frombuffer (lo # hi # bs) =
     map_option (\<lambda>r. (ucast lo OR push_bit 8 (ucast hi)) # r) (frombuffer bs)"

definition add_data :: "byte list \<Rightarrow> player \<Rightarrow> py_exn + player" where
  "add_data data p =
     (case frombuffer data of
        None \<Rightarrow> Inl ValueError
      | Some np_data \<Rightarrow>
          (let p1 = p\<lparr>queue := queue p @ [np_data]\<rparr>
           in Inr (if \<not> playing p1 then start p1 else p1)))"

text \<open>A run of the output callback: one call per requested block size, in order.\<close>

fun run_callbacks :: "nat list \<Rightarrow> player \<Rightarrow> sample list list \<times> player" where
  "run_callbacks [] p = ([], p)"
| "run_callbacks (frames # fs) p =
     (let (out, p1) = callback frames p;
          (outs, p2) = run_callbacks fs p1
      in (out # outs, p2))"

section \<open>The dialogue system (app.py, class DialogueSystem)\<close>

text \<open>
  The fields of \<open>DialogueSystem\<close> that the realtime pipeline reads or writes. A turn of
  \<open>conversation_history\<close> is the dict \<open>{"role": r, "content": c}\<close>; \<open>acc_items\<close> is the
  dict from item id to the transcript accumulated so far; \<open>realtime_conn\<close> is the
  connection object or None, the object being named by a number.

  What the code does to the world outside is recorded, in order, in the field \<open>trace\<close>:
  a call is recorded when it is made, whether it then returns or raises. Sleeps are in
  milliseconds. \<open>AppendAudio\<close> carries the samples whose base64 text is sent.
\<close>

record turn =
  role :: string
  content :: string

datatype command =
    AppendAudio "sample list"
  | Commit
  | CreateResponse
  | CancelResponse
  | CreateItem string

datatype effect =
    Connect
  | SessionUpdate
  | Send command
  | CloseConn
  | ChatRequest "turn list"
  | Sleep nat

record dialogue =
  npc_message :: string
  conversation_history :: "turn list"
  is_npc_responding :: bool
  realtime_conn :: "nat option"
  speech_mode :: bool
  last_audio_item_id :: "string option"
  acc_items :: "string \<rightharpoonup> string"
  audio_player :: player
  sent_audio_once :: bool
  speech_active :: bool
  realtime_initialized :: bool
  trace :: "effect list"

text \<open>
  An awaited remote call returns or raises an exception (a subclass of \<open>Exception\<close>).
  The non-streaming chat request returns the contents of \<open>response.choices\<close>.
  \<open>renv\<close> collects what the world answers during one call of a handler;
  \<open>b64decode\<close> stands for \<open>base64.b64decode\<close> (None when it raises).
\<close>

datatype outcome = Returns | Raises py_exn

datatype chat_reply = ChatRaises py_exn | ChatReturns "string list"

record renv =
  b64decode :: "string \<Rightarrow> byte list option"
  cancel_result :: outcome
  commit_result :: outcome
  create_result :: outcome
  item_result :: outcome
  chat_result :: chat_reply

datatype event =
    SessionCreated
  | SessionUpdated
  | AudioDelta string string
  | TranscriptDelta string string
  | TranscriptDone string
  | SpeechStarted
  | SpeechDone
  | CommitDone
  | ResponseDone
  | ErrorEvent string
  | Unhandled string

text \<open>\<open>needle in text\<close> on Python strings.\<close>

fun str_contains :: "string \<Rightarrow> string \<Rightarrow> bool" where
  "str_contains needle [] = (needle = [])"
| "str_contains needle (c # cs) = (prefix needle (c # cs) \<or> str_contains needle cs)"

definition log :: "effect \<Rightarrow> dialogue \<Rightarrow> dialogue" where
  "log e s = s\<lparr>trace := trace s @ [e]\<rparr>"

text \<open>\<open>self.acc_items.get(item_id, "")\<close>\<close>

definition acc_get :: "dialogue \<Rightarrow> string \<Rightarrow> string" where
  "acc_get s item_id = (case acc_items s item_id of None \<Rightarrow> [] | Some t \<Rightarrow> t)"

text \<open>
  \<open>cancel_ongoing_response\<close>:
  \<^verbatim>\<open>
  if self.is_npc_responding or self.audio_player.is_playing():
      try:
          if self.realtime_conn and self.speech_mode:
              await self.realtime_conn.response.cancel()
      except Exception as e:
          if "response_cancel_not_active" not in str(e):
              print(...)
      self.audio_player.stop()
      self.audio_player.reset_frame_count()
      self.npc_message = ""
      self.acc_items.clear()
      self.last_audio_item_id = None
      self.is_npc_responding = False
  \<close>
  \<open>AudioPlayerAsync\<close> has no method \<open>is_playing\<close>, so the second disjunct of the
  guard, evaluated only when the first is false, raises AttributeError. An exception of
  the cancel call is caught and at most printed. A raising function returns \<open>Inl\<close>
  with the exception and the state reached.
\<close>

definition cancel_ongoing_response :: "renv \<Rightarrow> dialogue \<Rightarrow> (py_exn \<times> dialogue) + dialogue" where
  "cancel_ongoing_response env s =
     (if is_npc_responding s then
        (let s1 = (if realtime_conn s \<noteq> None \<and> speech_mode s then
                     (case cancel_result env of
                        Returns \<Rightarrow> log (Send CancelResponse) s
                      | Raises e \<Rightarrow> log (Send CancelResponse) s)
                   else s)
         in Inr (s1\<lparr>audio_player := reset_frame_count (stop (audio_player s1)),
                    npc_message := [],
                    acc_items := Map.empty,
                    last_audio_item_id := None,
                    is_npc_responding := False\<rparr>))
      else Inl (AttributeError, s))"

text \<open>
  The body of the \<open>try\<close> of \<open>handle_realtime_event\<close>, one equation per branch of
  the chain on \<open>event.type\<close>. The branches that change the state:
  \<^verbatim>\<open>
  elif event.type == "response.audio.delta":
      self.is_npc_responding = True
      if event.item_id != self.last_audio_item_id:
          self.audio_player.reset_frame_count()
          self.last_audio_item_id = event.item_id
      bytes_data = base64.b64decode(event.delta)
      self.audio_player.add_data(bytes_data)
  elif event.type == "response.audio_transcript.delta":
      so_far = self.acc_items.get(event.item_id, "") + event.delta
      self.acc_items[event.item_id] = so_far
  elif event.type == "response.audio_transcript.done":
      self.npc_message = self.acc_items.get(event.item_id, "")
      self.conversation_history.append({"role": "assistant", "content": self.npc_message})
      self.is_npc_responding = False
  elif event.type == "input_audio_buffer.speech_started":
      self.speech_active = True
      if self.is_npc_responding:
          await self.cancel_ongoing_response()
      self.audio_player.stop()
      self.npc_message = ""
      self.acc_items.clear()
      self.conversation_history.append({"role": "user", "content": "[Speech input started]"})
  elif event.type == "input_audio_buffer.speech_done":
      self.speech_active = False
      await self.realtime_conn.input_audio_buffer.commit()
      await self.realtime_conn.response.create(response={"modalities": ["text", "audio"]})
  elif event.type == "response.done":
      self.is_npc_responding = False
  elif event.type == "error":
      if "response_cancel_not_active" in str(event.error):
          print(...)
      else:
          self.speech_mode = False
          self.realtime_conn = None
          self.realtime_initialized = False
  \<close>
\<close>

fun handle_event_body :: "renv \<Rightarrow> event \<Rightarrow> dialogue \<Rightarrow> (py_exn \<times> dialogue) + dialogue" where
  "handle_event_body env SessionCreated s = Inr s"
| "handle_event_body env SessionUpdated s = Inr s"
| "handle_event_body env (AudioDelta item_id delta) s =
     (let s1 = s\<lparr>is_npc_responding := True\<rparr>;
          s2 = (if Some item_id \<noteq> last_audio_item_id s1 then
                  s1\<lparr>audio_player := reset_frame_count (audio_player s1),
                     last_audio_item_id := Some item_id\<rparr>
                else s1)
      in case b64decode env delta of
           None \<Rightarrow> Inl (BinasciiError, s2)
         | Some bytes_data \<Rightarrow>
             (case add_data bytes_data (audio_player s2) of
                Inl e \<Rightarrow> Inl (e, s2)
              | Inr p \<Rightarrow> Inr (s2\<lparr>audio_player := p\<rparr>)))"
| "handle_event_body env (TranscriptDelta item_id delta) s =
     (let so_far = acc_get s item_id @ delta
      in Inr (s\<lparr>acc_items := (acc_items s)(item_id \<mapsto> so_far)\<rparr>))"
| "handle_event_body env (TranscriptDone item_id) s =
     (let s1 = s\<lparr>npc_message := acc_get s item_id\<rparr>
      in Inr (s1\<lparr>conversation_history :=
                   conversation_history s1 @ [\<lparr>role = ''assistant'', content = npc_message s1\<rparr>],
                 is_npc_responding := False\<rparr>))"
| "handle_event_body env SpeechStarted s =
     (let s1 = s\<lparr>speech_active := True\<rparr>
      in case (if is_npc_responding s1 then cancel_ongoing_response env s1 else Inr s1) of
           Inl x \<Rightarrow> Inl x
         | Inr s2 \<Rightarrow>
             Inr (s2\<lparr>audio_player := stop (audio_player s2),
                     npc_message := [],
                     acc_items := Map.empty,
                     conversation_history :=
                       conversation_history s2 @
                       [\<lparr>role = ''user'', content = ''[Speech input started]''\<rparr>]\<rparr>))"
| "handle_event_body env SpeechDone s =
     (let s1 = s\<lparr>speech_active := False\<rparr>
      in case realtime_conn s1 of
           None \<Rightarrow> Inl (AttributeError, s1)
         | Some c \<Rightarrow>
             (let s2 = log (Send Commit) s1
              in case commit_result env of
                   Raises e \<Rightarrow> Inl (e, s2)
                 | Returns \<Rightarrow>
                     (let s3 = log (Send CreateResponse) s2
                      in case create_result env of
                           Raises e \<Rightarrow> Inl (e, s3)
                         | Returns \<Rightarrow> Inr s3)))"
| "handle_event_body env CommitDone s = Inr s"
| "handle_event_body env ResponseDone s = Inr (s\<lparr>is_npc_responding := False\<rparr>)"
| "handle_event_body env (ErrorEvent err) s =
     (if str_contains ''response_cancel_not_active'' err then Inr s
      else Inr (s\<lparr>speech_mode := False,
                  realtime_conn := None,
                  realtime_initialized := False\<rparr>))"
| "handle_event_body env (Unhandled t) s = Inr s"

text \<open>\<open>handle_realtime_event\<close>: \<open>except Exception\<close> clears the responding flag.\<close>

definition handle_realtime_event :: "renv \<Rightarrow> event \<Rightarrow> dialogue \<Rightarrow> dialogue" where
  "handle_realtime_event env ev s =
     (case handle_event_body env ev s of
        Inr s' \<Rightarrow> s'
      | Inl (e, s') \<Rightarrow> s'\<lparr>is_npc_responding := False\<rparr>)"

text \<open>
  The events of one connection, handled one at a time in arrival order
  (\<open>async for event in conn: await self.handle_realtime_event(event)\<close>), each with the
  answers the world gives during its handling.
\<close>

fun deliver :: "(renv \<times> event) list \<Rightarrow> dialogue \<Rightarrow> dialogue" where
  "deliver [] s = s"
| "deliver ((env, ev) # evs) s = deliver evs (handle_realtime_event env ev s)"

text \<open>
  \<open>start_conversation\<close>, lines 814 to 818: an existing connection is closed before the
  handle is dropped.
  \<^verbatim>\<open>
  if self.realtime_conn:
      self.realtime_conn.close()
      self.realtime_conn = None
      self.realtime_initialized = False
  \<close>
\<close>

definition close_existing_connection :: "dialogue \<Rightarrow> dialogue" where
  "close_existing_connection s =
     (if realtime_conn s \<noteq> None then
        (log CloseConn s)\<lparr>realtime_conn := None, realtime_initialized := False\<rparr>
      else s)"

text \<open>
  \<open>initialize_realtime\<close>. What one pass through the \<open>try\<close> meets: the connect call
  raises; or the connection opens and \<open>session.update\<close> raises; or the session is
  configured, events arrive and are handled, and then the event stream raises or ends.
\<close>

datatype attempt =
    ConnectFails py_exn
  | UpdateFails nat py_exn
  | StreamFails nat "(renv \<times> event) list" py_exn
  | StreamEnds nat "(renv \<times> event) list"

definition max_attempts :: nat where
  "max_attempts = 3"

definition run_attempt :: "attempt \<Rightarrow> dialogue \<Rightarrow> (py_exn \<times> dialogue) + dialogue" where
  "run_attempt a s =
     (case a of
        ConnectFails e \<Rightarrow> Inl (e, log Connect s)
      | UpdateFails conn e \<Rightarrow>
          Inl (e, log SessionUpdate ((log Connect s)\<lparr>realtime_conn := Some conn\<rparr>))
      | StreamFails conn evs e \<Rightarrow>
          Inl (e, deliver evs
                    ((log SessionUpdate ((log Connect s)\<lparr>realtime_conn := Some conn\<rparr>))
                       \<lparr>realtime_initialized := True\<rparr>))
      | StreamEnds conn evs \<Rightarrow>
          Inr (deliver evs
                 ((log SessionUpdate ((log Connect s)\<lparr>realtime_conn := Some conn\<rparr>))
                    \<lparr>realtime_initialized := True\<rparr>)))"

text \<open>
  \<open>for attempt in range(max_attempts)\<close>; \<open>world attempt\<close> is what the attempt meets.
  \<^verbatim>\<open>
  for attempt in range(max_attempts):
      try:
          async with self.client.beta.realtime.connect(model=...) as conn:
              self.realtime_conn = conn
              await conn.session.update(session={...})
              self.realtime_initialized = True
              async for event in conn:
                  await self.handle_realtime_event(event)
      except Exception as e:
          self.realtime_conn = None
          self.realtime_initialized = False
          if attempt < max_attempts - 1:
              await asyncio.sleep(2)
          else:
              self.speech_mode = False
              break
  \<close>
  A pass that ends without an exception goes on to the next attempt at once.
\<close>

function attempts_from :: "(nat \<Rightarrow> attempt) \<Rightarrow> nat \<Rightarrow> dialogue \<Rightarrow> dialogue" where
  "attempts_from world attempt s =
     (if attempt < max_attempts then
        (case run_attempt (world attempt) s of
           Inr s1 \<Rightarrow> attempts_from world (Suc attempt) s1
         | Inl (e, s1) \<Rightarrow>
             (let s2 = s1\<lparr>realtime_conn := None, realtime_initialized := False\<rparr>
              in if attempt < max_attempts - 1 then
                   attempts_from world (Suc attempt) (log (Sleep 2000) s2)
                 else s2\<lparr>speech_mode := False\<rparr>))
      else s)"
  by pat_completeness auto
termination
  by (relation "measure (\<lambda>(world, attempt, s). max_attempts - attempt)") auto

declare attempts_from.simps [simp del]

definition initialize_realtime :: "(nat \<Rightarrow> attempt) \<Rightarrow> dialogue \<Rightarrow> dialogue" where
  "initialize_realtime world s = attempts_from world 0 (s\<lparr>realtime_initialized := False\<rparr>)"

fun attempt_fails :: "attempt \<Rightarrow> bool" where
  "attempt_fails (StreamEnds conn evs) = False"
| "attempt_fails a = True"

text \<open>Readings of a trace: the connect calls, the sleeps, the audio appended.\<close>

fun connects :: "effect list \<Rightarrow> nat" where
  "connects [] = 0"
| "connects (Connect # t) = Suc (connects t)"
| "connects (e # t) = connects t"

fun delays :: "effect list \<Rightarrow> nat list" where
  "delays [] = []"
| "delays (Sleep d # t) = d # delays t"
| "delays (e # t) = delays t"

fun appends :: "effect list \<Rightarrow> sample list list" where
  "appends [] = []"
| "appends (Send (AppendAudio d) # t) = d # appends t"
| "appends (e # t) = appends t"

fun closes :: "effect list \<Rightarrow> nat" where
  "closes [] = 0"
| "closes (CloseConn # t) = Suc (closes t)"
| "closes (e # t) = closes t"

text \<open>The effects recorded between an earlier state and a later one.\<close>

definition since :: "dialogue \<Rightarrow> dialogue \<Rightarrow> effect list" where
  "since s s' = drop (length (trace s)) (trace s')"

text \<open>
  \<open>record_mic_audio\<close>. \<open>read_size = int(SAMPLE_RATE * 0.02)\<close> is 480. One pass of the
  \<open>while True\<close> loop meets \<open>stream.read_available\<close>, the answer of \<open>stream.read\<close>
  (the samples and the overflow flag, or an exception) and the answer of the append call.
  \<^verbatim>\<open>
  while True:
      if not self.speech_mode or not self.realtime_conn or not self.realtime_initialized:
          await asyncio.sleep(0.1)
          continue
      if stream.read_available < read_size:
          await asyncio.sleep(0.01)
          continue
      data, overflowed = stream.read(read_size)
      if overflowed:
          continue
      if data.size > 0:
          b64_audio = base64.b64encode(data.tobytes()).decode("utf-8")
          await self.realtime_conn.input_audio_buffer.append(audio=b64_audio)
          self.sent_audio_once = True
      await asyncio.sleep(0)
  \<close>
  The \<open>except Exception\<close> around the loop sets \<open>speech_mode\<close> and
  \<open>realtime_initialized\<close> to False.
\<close>

definition read_size :: nat where
  "read_size = 480"

datatype read_result = ReadOk "sample list" bool | ReadRaises py_exn

record mic_env =
  read_available :: nat
  read_outcome :: read_result
  append_result :: outcome

definition mic_iteration :: "mic_env \<Rightarrow> dialogue \<Rightarrow> (py_exn \<times> dialogue) + dialogue" where
  "mic_iteration env s =
     (if \<not> speech_mode s \<or> realtime_conn s = None \<or> \<not> realtime_initialized s then
        Inr (log (Sleep 100) s)
      else if read_available env < read_size then
        Inr (log (Sleep 10) s)
      else
        (case read_outcome env of
           ReadRaises e \<Rightarrow> Inl (e, s)
         | ReadOk data overflowed \<Rightarrow>
             if overflowed then Inr s
             else if length data > 0 then
               (let s1 = log (Send (AppendAudio data)) s
                in case append_result env of
                     Raises e \<Rightarrow> Inl (e, s1)
                   | Returns \<Rightarrow> Inr (log (Sleep 0) (s1\<lparr>sent_audio_once := True\<rparr>)))
             else Inr (log (Sleep 0) s)))"

text \<open>
  The loop shares \<open>speech_mode\<close>, \<open>realtime_conn\<close> and \<open>realtime_initialized\<close> with the
  event handler and the user interface, which may write them between two passes. A round
  is the writes made by the others, then one pass. The loop has no normal exit: a list of
  rounds is a finite prefix of an execution, ended early by an exception, whose handler
  disables speech mode.
\<close>

datatype flag_write =
    SetSpeechMode bool
  | SetConn "nat option"
  | SetInitialized bool

fun apply_write :: "flag_write \<Rightarrow> dialogue \<Rightarrow> dialogue" where
  "apply_write (SetSpeechMode b) s = s\<lparr>speech_mode := b\<rparr>"
| "apply_write (SetConn c) s = s\<lparr>realtime_conn := c\<rparr>"
| "apply_write (SetInitialized b) s = s\<lparr>realtime_initialized := b\<rparr>"

fun mic_loop :: "(flag_write list \<times> mic_env) list \<Rightarrow> dialogue \<Rightarrow> dialogue" where
  "mic_loop [] s = s"
| "mic_loop ((writes, env) # rounds) s =
     (case mic_iteration env (fold apply_write writes s) of
        Inr s1 \<Rightarrow> mic_loop rounds s1
      | Inl (e, s1) \<Rightarrow> s1\<lparr>speech_mode := False, realtime_initialized := False\<rparr>)"

definition record_mic_audio :: "outcome \<Rightarrow> (flag_write list \<times> mic_env) list \<Rightarrow> dialogue \<Rightarrow> dialogue" where
  "record_mic_audio stream_open rounds s =
     (case stream_open of
        Raises e \<Rightarrow> s\<lparr>speech_mode := False, realtime_initialized := False\<rparr>
      | Returns \<Rightarrow> mic_loop rounds s)"

fun enables_speech :: "flag_write \<Rightarrow> bool" where
  "enables_speech (SetSpeechMode b) = b"
| "enables_speech w = False"

text \<open>
  \<open>send_message\<close>: the body of the \<open>try\<close>, then the method.
  \<^verbatim>\<open>
  if not self.conversation_history:
      return
  try:
      if self.speech_mode and self.realtime_conn and self.realtime_initialized:
          if self.is_npc_responding:
              await self.cancel_ongoing_response()
          await self.realtime_conn.conversation.item.create(item={...})
          await self.realtime_conn.response.create(response={...})
      else:
          response = await self.client.chat.completions.create(
              model=..., messages=self.conversation_history, ...)
          ai_message = response.choices[0].message.content
          self.conversation_history.append({"role": "assistant", "content": ai_message})
          self.npc_message = ai_message
          self.is_npc_responding = True
  except Exception as e:
      self.npc_message = "I apologize, but I'm having trouble connecting to our systems right now."
      self.is_npc_responding = False
  \<close>
\<close>

definition apology :: string where
  "apology = ''I apologize, but I'm having trouble connecting to our systems right now.''"

definition send_message_body :: "renv \<Rightarrow> string \<Rightarrow> dialogue \<Rightarrow> (py_exn \<times> dialogue) + dialogue" where
  "send_message_body env text_input s =
     (if speech_mode s \<and> realtime_conn s \<noteq> None \<and> realtime_initialized s then
        (case (if is_npc_responding s then cancel_ongoing_response env s else Inr s) of
           Inl x \<Rightarrow> Inl x
         | Inr s1 \<Rightarrow>
             (let s2 = log (Send (CreateItem text_input)) s1
              in case item_result env of
                   Raises e \<Rightarrow> Inl (e, s2)
                 | Returns \<Rightarrow>
                     (let s3 = log (Send CreateResponse) s2
                      in case create_result env of
                           Raises e \<Rightarrow> Inl (e, s3)
                         | Returns \<Rightarrow> Inr s3)))
      else
        (let s1 = log (ChatRequest (conversation_history s)) s
         in case chat_result env of
              ChatRaises e \<Rightarrow> Inl (e, s1)
            | ChatReturns choices \<Rightarrow>
                (case choices of
                   [] \<Rightarrow> Inl (IndexError, s1)
                 | ai_message # rest \<Rightarrow>
                     Inr (s1\<lparr>conversation_history :=
                               conversation_history s1 @
                               [\<lparr>role = ''assistant'', content = ai_message\<rparr>],
                             npc_message := ai_message,
                             is_npc_responding := True\<rparr>))))"

definition send_message :: "renv \<Rightarrow> string \<Rightarrow> dialogue \<Rightarrow> dialogue" where
  "send_message env text_input s =
     (if conversation_history s = [] then s
      else
        (case send_message_body env text_input s of
           Inr s' \<Rightarrow> s'
         | Inl (e, s') \<Rightarrow> s'\<lparr>npc_message := apology, is_npc_responding := False\<rparr>))"

section \<open>Starting the output stream\<close>

text \<open>
  \<open>start\<close> sets the flag before it calls the device:
  \<^verbatim>\<open>
  def start(self):
      self.playing = True
      self.stream.start()
  \<close>
  \<open>start_dev\<close> and \<open>add_data_dev\<close> are \<open>start\<close> and \<open>add_data\<close> with the answer of
  \<open>stream.start()\<close> as a parameter: when the device call raises, the flag is already
  set, the chunk is already appended, and the exception leaves \<open>add_data\<close> (the event
  handler catches it). \<open>Inl\<close> carries the exception and the player as it is then.
\<close>

definition start_dev :: "outcome \<Rightarrow> player \<Rightarrow> (py_exn \<times> player) + player" where
  "start_dev device p =
     (let p1 = p\<lparr>playing := True\<rparr>
      in case device of
           Raises e \<Rightarrow> Inl (e, p1)
         | Returns \<Rightarrow> Inr (p1\<lparr>stream_active := True\<rparr>))"

definition add_data_dev :: "outcome \<Rightarrow> byte list \<Rightarrow> player \<Rightarrow> (py_exn \<times> player) + player" where
  "add_data_dev device data p =
     (case frombuffer data of
        None \<Rightarrow> Inl (ValueError, p)
      | Some np_data \<Rightarrow>
          (let p1 = p\<lparr>queue := queue p @ [np_data]\<rparr>
           in if \<not> playing p1 then start_dev device p1 else Inr p1))"

section \<open>Concrete values\<close>

text \<open>
  A dialogue in the middle of an assistant response (item \<open>r1\<close>, two samples queued,
  five played), the answers of a world whose cancel call and chat request raise and whose
  base64 decoder knows the text \<open>AQA=\<close> (the bytes 01 00), and a microphone with one
  full read available.
\<close>

definition demo_env :: renv where
  "demo_env =
     \<lparr>b64decode = (\<lambda>d. if d = ''AQA='' then Some [1, 0] else None),
      cancel_result = Raises (RemoteError ''response_cancel_not_active''),
      commit_result = Returns,
      create_result = Returns,
      item_result = Returns,
      chat_result = ChatRaises (RemoteError ''timeout'')\<rparr>"

definition demo_state :: dialogue where
  "demo_state =
     \<lparr>npc_message = ''Hel'',
      conversation_history = [\<lparr>role = ''system'', content = ''You are HR''\<rparr>],
      is_npc_responding = True,
      realtime_conn = Some 1,
      speech_mode = True,
      last_audio_item_id = Some ''r1'',
      acc_items = [''r1'' \<mapsto> ''Hel''],
      audio_player =
        \<lparr>queue = [[7, 8]], playing = True, frame_count = 5, stream_active = True\<rparr>,
      sent_audio_once = False,
      speech_active = False,
      realtime_initialized = True,
      trace = []\<rparr>"

definition demo_mic :: mic_env where
  "demo_mic =
     \<lparr>read_available = 480, read_outcome = ReadOk [3, 4] False, append_result = Returns\<rparr>"

section \<open>Properties of the output callback\<close>

lemma fill_done: "\<not> length data < frames \<Longrightarrow> fill frames data q = (data, q)"
  by (subst fill.simps) simp

lemma fill_data:
  "fst (fill frames data q) = data @ take (frames - length data) (concat q)"
proof (induction frames data q rule: fill.induct)
  case (1 frames data q)
  show ?case
  proof (cases "length data < frames \<and> length q > 0")
    case False
    then show ?thesis by (subst fill.simps) auto
  next
    case True
    then obtain item q1 where q: "q = item # q1" by (cases q) auto
    show ?thesis
    proof (cases "length item > frames - length data")
      case long: True
      have "fst (fill frames data q) =
            fst (fill frames (data @ take (frames - length data) item)
                   (drop (frames - length data) item # q1))"
        using True long q by (subst fill.simps) (simp add: Let_def)
      also have "\<dots> = (data @ take (frames - length data) item) @
            take (frames - length (data @ take (frames - length data) item))
                 (concat (drop (frames - length data) item # q1))"
        using "1.IH" [OF True refl refl refl refl refl] long q by simp
      finally show ?thesis using long q True by (simp add: min_def)
    next
      case short: False
      have "fst (fill frames data q) =
            fst (fill frames (data @ take (frames - length data) item) q1)"
        using True short q by (subst fill.simps) (simp add: Let_def)
      also have "\<dots> = (data @ take (frames - length data) item) @
            take (frames - length (data @ take (frames - length data) item)) (concat q1)"
        using "1.IH" [OF True refl refl refl refl refl] short q by simp
      finally show ?thesis using short q True by (simp add: min_def)
    qed
  qed
qed

lemma fill_queue:
  "concat (snd (fill frames data q)) = drop (frames - length data) (concat q)"
proof (induction frames data q rule: fill.induct)
  case (1 frames data q)
  show ?case
  proof (cases "length data < frames \<and> length q > 0")
    case False
    then show ?thesis by (subst fill.simps) auto
  next
    case True
    then obtain item q1 where q: "q = item # q1" by (cases q) auto
    show ?thesis
    proof (cases "length item > frames - length data")
      case long: True
      have "snd (fill frames data q) =
            snd (fill frames (data @ take (frames - length data) item)
                   (drop (frames - length data) item # q1))"
        using True long q by (subst fill.simps) (simp add: Let_def)
      then have "concat (snd (fill frames data q)) =
            drop (frames - length (data @ take (frames - length data) item))
                 (concat (drop (frames - length data) item # q1))"
        using "1.IH" [OF True refl refl refl refl refl] long q by simp
      then show ?thesis using long q True by (simp add: min_def)
    next
      case short: False
      have "snd (fill frames data q) =
            snd (fill frames (data @ take (frames - length data) item) q1)"
        using True short q by (subst fill.simps) (simp add: Let_def)
      then have "concat (snd (fill frames data q)) =
            drop (frames - length (data @ take (frames - length data) item)) (concat q1)"
        using "1.IH" [OF True refl refl refl refl refl] short q by simp
      then show ?thesis using short q True by (simp add: min_def)
    qed
  qed
qed

text \<open>
  The queue left behind is a suffix of the old queue, except that its first chunk may be
  the unconsumed tail of the chunk that was split.
\<close>

lemma fill_requeue:
  "\<exists>n k. snd (fill frames data q) = drop n q \<or>
         (n < length q \<and> snd (fill frames data q) = drop k (q ! n) # drop (Suc n) q)"
proof (induction frames data q rule: fill.induct)
  case (1 frames data q)
  show ?case
  proof (cases "length data < frames \<and> length q > 0")
    case False
    then have "snd (fill frames data q) = drop 0 q" by (subst fill.simps) auto
    then show ?thesis by blast
  next
    case True
    then obtain item q1 where q: "q = item # q1" by (cases q) auto
    show ?thesis
    proof (cases "length item > frames - length data")
      case long: True
      have full: "\<not> length (data @ take (frames - length data) item) < frames"
        using long True by (simp add: min_def)
      have "fill frames data q =
            fill frames (data @ take (frames - length data) item)
              (drop (frames - length data) item # q1)"
        using True long q by (subst fill.simps) (simp add: Let_def)
      also have "\<dots> = (data @ take (frames - length data) item,
                        drop (frames - length data) item # q1)"
        using full by (rule fill_done)
      finally have "0 < length q \<and>
          snd (fill frames data q) = drop (frames - length data) (q ! 0) # drop (Suc 0) q"
        using q by simp
      then show ?thesis by blast
    next
      case short: False
      have step: "snd (fill frames data q) =
            snd (fill frames (data @ take (frames - length data) item) q1)"
        using True short q by (subst fill.simps) (simp add: Let_def)
      from "1.IH" [OF True refl refl refl refl refl] short q
      obtain n k where
        "snd (fill frames (data @ take (frames - length data) item) q1) = drop n q1 \<or>
         (n < length q1 \<and>
          snd (fill frames (data @ take (frames - length data) item) q1)
            = drop k (q1 ! n) # drop (Suc n) q1)"
        by auto
      then have "snd (fill frames data q) = drop (Suc n) q \<or>
         (Suc n < length q \<and> snd (fill frames data q) = drop k (q ! Suc n) # drop (Suc (Suc n)) q)"
        using step q by auto
      then show ?thesis by blast
    qed
  qed
qed

lemma callback_out:
  "fst (callback frames p) =
     take frames (concat (queue p)) @ replicate (frames - length (concat (queue p))) 0"
proof -
  have "fst (fill frames [] (queue p)) = take frames (concat (queue p))"
    using fill_data [of frames "[]" "queue p"] by simp
  then show ?thesis
    by (cases "fill frames [] (queue p)") (auto simp: callback_def Let_def min_def)
qed

lemma callback_queue:
  "concat (queue (snd (callback frames p))) = drop frames (concat (queue p))"
  using fill_queue [of frames "[]" "queue p"]
  by (cases "fill frames [] (queue p)") (simp add: callback_def Let_def)

lemma callback_frame_count:
  "frame_count (snd (callback frames p)) =
     frame_count p + min (length (concat (queue p))) frames"
  using fill_data [of frames "[]" "queue p"]
  by (cases "fill frames [] (queue p)") (simp add: callback_def Let_def min.commute)

lemma callback_requeue:
  "\<exists>n k. queue (snd (callback frames p)) = drop n (queue p) \<or>
         (n < length (queue p) \<and>
          queue (snd (callback frames p)) = drop k (queue p ! n) # drop (Suc n) (queue p))"
  using fill_requeue [of frames "[]" "queue p"]
  by (cases "fill frames [] (queue p)") (simp add: callback_def Let_def)

lemma run_callbacks_out:
  "concat (fst (run_callbacks fs p)) =
     take (sum_list fs) (concat (queue p)) @
     replicate (sum_list fs - length (concat (queue p))) 0"
proof (induction fs arbitrary: p)
  case Nil
  show ?case by simp
next
  case (Cons f fs)
  obtain out p1 where c: "callback f p = (out, p1)" by (cases "callback f p")
  obtain outs p2 where r: "run_callbacks fs p1 = (outs, p2)" by (cases "run_callbacks fs p1")
  let ?Q = "concat (queue p)"
  have out: "out = take f ?Q @ replicate (f - length ?Q) 0"
    using callback_out [of f p] c by simp
  have q1: "concat (queue p1) = drop f ?Q"
    using callback_queue [of f p] c by simp
  have outs: "concat outs = take (sum_list fs) (drop f ?Q) @
                replicate (sum_list fs - length (drop f ?Q)) 0"
    using Cons.IH [of p1] r q1 by simp
  have "concat (fst (run_callbacks (f # fs) p)) = out @ concat outs"
    using c r by simp
  also have "\<dots> = take (f + sum_list fs) ?Q @ replicate (f + sum_list fs - length ?Q) 0"
  proof (cases "f \<le> length ?Q")
    case True
    then show ?thesis
      unfolding out outs by (simp add: take_add)
  next
    case False
    then show ?thesis
      unfolding out outs by (simp add: replicate_add [symmetric])
  qed
  finally show ?case by simp
qed

text \<open>
  Claim C1. For every player state and every block size \<open>frames\<close>, one call of the
  output callback writes the first \<open>min S frames\<close> samples of the concatenation of the
  queued chunks, in queue order (\<open>S\<close> being the number of queued samples), followed by
  \<open>frames - min S frames\<close> zero samples; the block has \<open>frames\<close> samples. The samples
  left in the queue are the rest of that concatenation, and the queue left is a suffix of
  the old queue whose first chunk may be the unconsumed tail of a split chunk. The frame
  counter grows by the number of queued samples written. Over any run of callbacks, the
  blocks concatenated are the queued samples, as far as the blocks reach, and after
  them only zeros.
\<close>

theorem callback_drains_queue_then_pads:
  "fst (callback frames p) =
     take (min (length (concat (queue p))) frames) (concat (queue p)) @
     replicate (frames - min (length (concat (queue p))) frames) 0
   \<and> length (fst (callback frames p)) = frames
   \<and> concat (queue (snd (callback frames p))) = drop frames (concat (queue p))
   \<and> (\<exists>n k. queue (snd (callback frames p)) = drop n (queue p) \<or>
         (n < length (queue p) \<and>
          queue (snd (callback frames p)) = drop k (queue p ! n) # drop (Suc n) (queue p)))
   \<and> frame_count (snd (callback frames p)) =
       frame_count p + min (length (concat (queue p))) frames
   \<and> concat (fst (run_callbacks fs p)) =
       take (sum_list fs) (concat (queue p)) @
       replicate (sum_list fs - length (concat (queue p))) 0"
proof -
  let ?Q = "concat (queue p)"
  have a: "fst (callback frames p) =
     take (min (length ?Q) frames) ?Q @ replicate (frames - min (length ?Q) frames) 0"
    by (simp add: callback_out min_def)
  have b: "length (fst (callback frames p)) = frames"
    by (simp add: callback_out)
  show ?thesis
    using a b callback_queue [of frames p] callback_requeue [of frames p]
      callback_frame_count [of frames p] run_callbacks_out [of fs p]
    by blast
qed

theorem callback_drains_queue_then_pads_witness:
  "fst (callback 7 \<lparr>queue = [[1, 2], [], [3, 4, 5]], playing = True, frame_count = 0,
                    stream_active = True\<rparr>) = [1, 2, 3, 4, 5, 0, 0]
   \<and> concat (queue (snd (callback 3 \<lparr>queue = [[1, 2], [], [3, 4, 5]], playing = True,
                    frame_count = 0, stream_active = True\<rparr>))) = [4, 5]
   \<and> concat (fst (run_callbacks [2, 2, 3] \<lparr>queue = [[1, 2], [], [3, 4, 5]], playing = True,
                    frame_count = 0, stream_active = True\<rparr>)) = [1, 2, 3, 4, 5, 0, 0]"
  using callback_drains_queue_then_pads [of 7 "\<lparr>queue = [[1, 2], [], [3, 4, 5]],
      playing = True, frame_count = 0, stream_active = True\<rparr>" "[2, 2, 3]"]
    callback_drains_queue_then_pads [of 3 "\<lparr>queue = [[1, 2], [], [3, 4, 5]],
      playing = True, frame_count = 0, stream_active = True\<rparr>" "[]"]
  by (simp add: numeral_eq_Suc)

section \<open>Enqueuing starts playback\<close>

lemma add_data_dev_returns:
  "add_data_dev Returns d p = (case add_data d p of Inl e \<Rightarrow> Inl (e, p) | Inr p' \<Rightarrow> Inr p')"
  by (simp add: add_data_dev_def add_data_def start_dev_def start_def Let_def
      split: option.splits)

lemma add_data_dev_Inr:
  assumes "add_data_dev device d p = Inr p'"
  shows "\<exists>frame. frombuffer d = Some frame \<and>
           p' = (if playing p then p\<lparr>queue := queue p @ [frame]\<rparr>
                 else p\<lparr>queue := queue p @ [frame], playing := True, stream_active := True\<rparr>) \<and>
           (playing p \<or> device = Returns)"
proof (cases "frombuffer d")
  case None
  then show ?thesis using assms by (simp add: add_data_dev_def)
next
  case (Some frame)
  show ?thesis
  proof (cases "playing p")
    case True
    then show ?thesis using assms Some by (auto simp: add_data_dev_def Let_def)
  next
    case False
    then show ?thesis using assms Some
      by (cases device) (auto simp: add_data_dev_def start_dev_def Let_def)
  qed
qed

text \<open>
  Claim C9, as stated, fails: after \<open>add_data\<close> returns the output stream need not have
  been started. A first \<open>add_data\<close> on the new player appends its chunk and sets the
  flag, and then \<open>stream.start()\<close> raises. A second \<open>add_data\<close> finds the flag set,
  calls no \<open>start\<close> and returns: the flag is set, the queue is not empty, and the stream
  is not running.
\<close>

theorem add_data_stream_not_started_counterexample:
  "add_data_dev (Raises (DeviceError ''PortAudio'')) [2, 0] player_init =
     Inl (DeviceError ''PortAudio'',
          \<lparr>queue = [[2]], playing = True, frame_count = 0, stream_active = False\<rparr>)
   \<and> add_data_dev Returns [1, 0]
         \<lparr>queue = [[2]], playing = True, frame_count = 0, stream_active = False\<rparr> =
       Inr \<lparr>queue = [[2], [1]], playing = True, frame_count = 0, stream_active = False\<rparr>
   \<and> add_data [1, 0]
         \<lparr>queue = [[2]], playing = True, frame_count = 0, stream_active = False\<rparr> =
       Inr \<lparr>queue = [[2], [1]], playing = True, frame_count = 0, stream_active = False\<rparr>
   \<and> \<not> stream_active
         \<lparr>queue = [[2 :: sample], [1]], playing = True, frame_count = 0, stream_active = False\<rparr>"
  by (simp add: add_data_dev_def start_dev_def add_data_def player_init_def)

text \<open>
  Claim C9, amended. Whenever \<open>add_data\<close> returns, whatever the state before and
  whatever the device answers, the chunk has been appended, so the queue is not empty,
  and the playing flag is set, with no separate call of \<open>start\<close> by the caller: every
  enqueue establishes that a non-empty queue means a set playing flag. The output
  stream is started by the call when the flag was clear before it (\<open>stream.start()\<close>
  has then returned); when the flag was already set, the call leaves the stream as it
  was, running or not. A call that returns gives the player that \<open>add_data\<close> with a
  returning device gives.
\<close>

theorem add_data_starts_playback:
  assumes "add_data_dev device d p = Inr p'"
  shows "playing p' \<and> queue p' \<noteq> []
       \<and> (\<exists>frame. frombuffer d = Some frame \<and> queue p' = queue p @ [frame])
       \<and> frame_count p' = frame_count p
       \<and> (\<not> playing p \<longrightarrow> stream_active p' \<and> device = Returns)
       \<and> (playing p \<longrightarrow> stream_active p' = stream_active p)
       \<and> add_data d p = Inr p'"
proof -
  obtain frame where f: "frombuffer d = Some frame"
    and p': "p' = (if playing p then p\<lparr>queue := queue p @ [frame]\<rparr>
                   else p\<lparr>queue := queue p @ [frame], playing := True, stream_active := True\<rparr>)"
    and dev: "playing p \<or> device = Returns"
    using add_data_dev_Inr [OF assms] by blast
  have "add_data d p = Inr p'"
    using f p' by (simp add: add_data_def start_def Let_def)
  then show ?thesis using f p' dev by auto
qed

theorem add_data_starts_playback_witness:
  "add_data_dev Returns [1, 0] player_init =
     Inr \<lparr>queue = [[1]], playing = True, frame_count = 0, stream_active = True\<rparr>
   \<and> \<not> playing player_init
   \<and> playing \<lparr>queue = [[1 :: sample]], playing = True, frame_count = 0, stream_active = True\<rparr>
   \<and> stream_active \<lparr>queue = [[1 :: sample]], playing = True, frame_count = 0,
                    stream_active = True\<rparr>"
proof -
  have e: "add_data_dev Returns [1, 0] player_init =
     Inr \<lparr>queue = [[1]], playing = True, frame_count = 0, stream_active = True\<rparr>"
    by (simp add: add_data_dev_def start_dev_def player_init_def)
  show ?thesis
    using e add_data_starts_playback [OF e]
    by (simp add: player_init_def)
qed

section \<open>Traces\<close>

lemma connects_append: "connects (a @ b) = connects a + connects b"
  by (induction a rule: connects.induct) simp_all

lemma delays_append: "delays (a @ b) = delays a @ delays b"
  by (induction a rule: delays.induct) simp_all

section \<open>Barge-in\<close>

lemma cancel_when_responding:
  "is_npc_responding s \<Longrightarrow>
   cancel_ongoing_response env s =
     Inr ((if realtime_conn s \<noteq> None \<and> speech_mode s then log (Send CancelResponse) s else s)
           \<lparr>audio_player :=
              reset_frame_count (stop (audio_player s)),
            npc_message := [], acc_items := Map.empty, last_audio_item_id := None,
            is_npc_responding := False\<rparr>)"
  by (cases "cancel_result env") (simp_all add: cancel_ongoing_response_def Let_def log_def)

text \<open>
  Claim C2. In every state in which the assistant is responding, handling one
  speech-started event leaves the playback queue empty, the frame counter at 0, the
  playback stopped, the transcript accumulation empty, the caption empty, no current
  audio item, and the responding flag cleared. The answer of the remote cancel call
  (it returns, or it raises) does not enter the result; no acknowledgement is awaited.
\<close>

theorem barge_in_resets_locally:
  assumes "is_npc_responding s"
  shows "queue (audio_player (handle_realtime_event env SpeechStarted s)) = []
       \<and> frame_count (audio_player (handle_realtime_event env SpeechStarted s)) = 0
       \<and> \<not> playing (audio_player (handle_realtime_event env SpeechStarted s))
       \<and> acc_items (handle_realtime_event env SpeechStarted s) = Map.empty
       \<and> npc_message (handle_realtime_event env SpeechStarted s) = []
       \<and> last_audio_item_id (handle_realtime_event env SpeechStarted s) = None
       \<and> \<not> is_npc_responding (handle_realtime_event env SpeechStarted s)
       \<and> handle_realtime_event (env\<lparr>cancel_result := r\<rparr>) SpeechStarted s =
           handle_realtime_event env SpeechStarted s"
  using assms
  by (simp add: handle_realtime_event_def cancel_when_responding stop_def reset_frame_count_def
      log_def Let_def)

theorem barge_in_resets_locally_witness:
  "is_npc_responding demo_state
   \<and> queue (audio_player demo_state) = [[7, 8]]
   \<and> cancel_result demo_env = Raises (RemoteError ''response_cancel_not_active'')
   \<and> queue (audio_player (handle_realtime_event demo_env SpeechStarted demo_state)) = []
   \<and> frame_count (audio_player (handle_realtime_event demo_env SpeechStarted demo_state)) = 0
   \<and> \<not> is_npc_responding (handle_realtime_event demo_env SpeechStarted demo_state)
   \<and> handle_realtime_event (demo_env\<lparr>cancel_result := Returns\<rparr>) SpeechStarted demo_state =
       handle_realtime_event demo_env SpeechStarted demo_state"
proof -
  have h: "is_npc_responding demo_state" by (simp add: demo_state_def)
  show ?thesis
    using h barge_in_resets_locally [OF h, of demo_env Returns]
    by (simp add: demo_state_def demo_env_def)
qed

section \<open>Audio deltas of a new item\<close>

text \<open>
  Claim C3, as stated, fails: the handler resets the frame counter and adopts the new
  item id, but it does not clear the queue. With the samples 7, 8 of item \<open>r1\<close> queued,
  an audio delta of item \<open>r2\<close> leaves them queued ahead of the new chunk.
\<close>

theorem audio_delta_new_item_counterexample:
  "last_audio_item_id demo_state = Some ''r1''
   \<and> queue (audio_player demo_state) = [[7, 8]]
   \<and> queue (audio_player (handle_realtime_event demo_env (AudioDelta ''r2'' ''AQA='') demo_state))
       = [[7, 8], [1]]
   \<and> queue (audio_player (handle_realtime_event demo_env (AudioDelta ''r2'' ''AQA='') demo_state))
       \<noteq> [[1]]"
  by (simp add: demo_env_def demo_state_def handle_realtime_event_def add_data_def
      reset_frame_count_def start_def)

text \<open>
  Claim C3, amended. For every audio delta whose item id differs from the current
  playback item id and whose payload decodes to a chunk, handling the event sets the
  frame counter to 0, adopts the item id and appends the chunk at the end of the
  playback queue: what was queued stays queued, in order, ahead of the new chunk.
  Playback is started and the responding flag is set.
\<close>

theorem audio_delta_new_item_resets_counter:
  assumes "last_audio_item_id s \<noteq> Some item_id"
    and "b64decode env delta = Some bytes_data"
    and "frombuffer bytes_data = Some frame"
  shows "frame_count (audio_player (handle_realtime_event env (AudioDelta item_id delta) s)) = 0
       \<and> last_audio_item_id (handle_realtime_event env (AudioDelta item_id delta) s) = Some item_id
       \<and> queue (audio_player (handle_realtime_event env (AudioDelta item_id delta) s)) =
           queue (audio_player s) @ [frame]
       \<and> playing (audio_player (handle_realtime_event env (AudioDelta item_id delta) s))
       \<and> is_npc_responding (handle_realtime_event env (AudioDelta item_id delta) s)"
  using assms
  by (auto simp: handle_realtime_event_def add_data_def reset_frame_count_def start_def Let_def)

theorem audio_delta_new_item_resets_counter_witness:
  "last_audio_item_id demo_state \<noteq> Some ''r2''
   \<and> b64decode demo_env ''AQA='' = Some [1, 0]
   \<and> frombuffer [1, 0] = Some [1]
   \<and> frame_count (audio_player (handle_realtime_event demo_env (AudioDelta ''r2'' ''AQA='') demo_state)) = 0
   \<and> queue (audio_player (handle_realtime_event demo_env (AudioDelta ''r2'' ''AQA='') demo_state)) =
       [[7, 8], [1]]"
proof -
  have h1: "last_audio_item_id demo_state \<noteq> Some ''r2''" by (simp add: demo_state_def)
  have h2: "b64decode demo_env ''AQA='' = Some [1, 0]" by (simp add: demo_env_def)
  have h3: "frombuffer [1, 0] = Some [1]" by simp
  show ?thesis
    using h1 h2 h3 audio_delta_new_item_resets_counter [OF h1 h2 h3]
    by (simp add: demo_state_def)
qed

section \<open>Remote errors\<close>

lemma error_event_ignored:
  "str_contains ''response_cancel_not_active'' err \<Longrightarrow>
   handle_realtime_event env (ErrorEvent err) s = s"
  by (simp add: handle_realtime_event_def)

lemma error_event_fatal:
  "\<not> str_contains ''response_cancel_not_active'' err \<Longrightarrow>
   handle_realtime_event env (ErrorEvent err) s =
     s\<lparr>speech_mode := False, realtime_conn := None, realtime_initialized := False\<rparr>"
  by (simp add: handle_realtime_event_def)

text \<open>
  Claim C4. An error of the class \<open>response_cancel_not_active\<close> leaves the whole state
  as it was, and no error event makes the handler raise (the two lemmas above). For any
  other error the handler disables speech mode and forgets the connection, but, unlike
  \<open>start_conversation\<close>, it never calls \<open>close()\<close> on it, while the handler runs
  inside the \<open>async with\<close> block that keeps the connection open: at the error
  \<open>server_error\<close>, with connection 1 open, the handle becomes None and nothing is
  recorded in the trace, where \<open>close_existing_connection\<close> records one close.
\<close>

theorem fatal_error_drops_handle_without_close:
  "realtime_conn demo_state = Some 1
   \<and> \<not> speech_mode (handle_realtime_event demo_env (ErrorEvent ''server_error'') demo_state)
   \<and> realtime_conn (handle_realtime_event demo_env (ErrorEvent ''server_error'') demo_state) = None
   \<and> trace (handle_realtime_event demo_env (ErrorEvent ''server_error'') demo_state) =
       trace demo_state
   \<and> closes (since demo_state
        (handle_realtime_event demo_env (ErrorEvent ''server_error'') demo_state)) = 0
   \<and> closes (since demo_state (close_existing_connection demo_state)) = 1"
  by (simp add: demo_state_def handle_realtime_event_def since_def close_existing_connection_def
      log_def)

section \<open>The non-streaming fallback\<close>

text \<open>
  Claim C6. For every non-empty turn log and every text input, when speech mode is not
  in use and the chat request raises, \<open>send_message\<close> returns with the caption set to
  the apology and the turn log as it was before the call; only the caption, the
  responding flag and the record of the request differ from the state before. (With an
  empty turn log \<open>send_message\<close> returns at once and makes no request.)
\<close>

theorem fallback_failure_gives_apology:
  assumes "conversation_history s \<noteq> []"
    and "\<not> (speech_mode s \<and> realtime_conn s \<noteq> None \<and> realtime_initialized s)"
    and "chat_result env = ChatRaises e"
  shows "npc_message (send_message env text_input s) = apology
       \<and> conversation_history (send_message env text_input s) = conversation_history s
       \<and> send_message env text_input s =
           (log (ChatRequest (conversation_history s)) s)
             \<lparr>npc_message := apology, is_npc_responding := False\<rparr>"
  using assms
  by (auto simp: send_message_def send_message_body_def log_def Let_def)

theorem fallback_failure_gives_apology_witness:
  "conversation_history (demo_state\<lparr>speech_mode := False\<rparr>) \<noteq> []
   \<and> \<not> speech_mode (demo_state\<lparr>speech_mode := False\<rparr>)
   \<and> chat_result demo_env = ChatRaises (RemoteError ''timeout'')
   \<and> npc_message (send_message demo_env ''hi'' (demo_state\<lparr>speech_mode := False\<rparr>)) = apology
   \<and> conversation_history (send_message demo_env ''hi'' (demo_state\<lparr>speech_mode := False\<rparr>)) =
       [\<lparr>role = ''system'', content = ''You are HR''\<rparr>]"
proof -
  have h1: "conversation_history (demo_state\<lparr>speech_mode := False\<rparr>) \<noteq> []"
    by (simp add: demo_state_def)
  have h2: "\<not> (speech_mode (demo_state\<lparr>speech_mode := False\<rparr>)
              \<and> realtime_conn (demo_state\<lparr>speech_mode := False\<rparr>) \<noteq> None
              \<and> realtime_initialized (demo_state\<lparr>speech_mode := False\<rparr>))"
    by simp
  have h3: "chat_result demo_env = ChatRaises (RemoteError ''timeout'')"
    by (simp add: demo_env_def)
  show ?thesis
    using h1 h3 fallback_failure_gives_apology [OF h1 h2 h3, of "''hi''"]
    by (simp add: demo_state_def log_def)
qed

section \<open>Transcripts\<close>

lemma acc_get_deliver_deltas:
  "acc_get (deliver (map (\<lambda>d. (env, TranscriptDelta item_id d)) ds) s) item_id =
     acc_get s item_id @ concat ds"
proof (induction ds arbitrary: s)
  case Nil
  show ?case by simp
next
  case (Cons d ds)
  have "acc_get (handle_realtime_event env (TranscriptDelta item_id d) s) item_id =
        acc_get s item_id @ d"
    by (simp add: handle_realtime_event_def acc_get_def)
  then show ?case using Cons.IH [of "handle_realtime_event env (TranscriptDelta item_id d) s"]
    by simp
qed

lemma transcript_done_result:
  "handle_realtime_event env (TranscriptDone item_id) s =
     s\<lparr>npc_message := acc_get s item_id,
       conversation_history :=
         conversation_history s @ [\<lparr>role = ''assistant'', content = acc_get s item_id\<rparr>],
       is_npc_responding := False\<rparr>"
  by (simp add: handle_realtime_event_def Let_def)

text \<open>
  Claim C7, as stated, fails: the transcript-done branch reads the accumulated text and
  does not remove it. After the delta \<open>a\<close> for item \<open>r9\<close>, a second transcript-done
  event yields \<open>a\<close> again, not the empty string, and the entry is still there.
\<close>

theorem finalize_clears_buffer_counterexample:
  "acc_items demo_state ''r9'' = None
   \<and> npc_message (deliver [(demo_env, TranscriptDelta ''r9'' ''a''),
                           (demo_env, TranscriptDone ''r9''),
                           (demo_env, TranscriptDone ''r9'')] demo_state) = ''a''
   \<and> npc_message (deliver [(demo_env, TranscriptDelta ''r9'' ''a''),
                           (demo_env, TranscriptDone ''r9''),
                           (demo_env, TranscriptDone ''r9'')] demo_state) \<noteq> []
   \<and> acc_items (deliver [(demo_env, TranscriptDelta ''r9'' ''a''),
                         (demo_env, TranscriptDone ''r9'')] demo_state) ''r9'' = Some ''a''"
  by (simp add: demo_state_def handle_realtime_event_def acc_get_def Let_def)

text \<open>
  Claim C7, amended. For every item id and every sequence of transcript deltas appended
  for it, the transcript-done event yields the text accumulated before them followed by
  the deltas in arrival order; for an item id with no entry yet this is the
  concatenation of the deltas, and with no delta at all the empty string, without an
  error. The accumulated entries are left as they were, so a second transcript-done
  event for the same item id yields the same text again.
\<close>

theorem finalize_returns_concatenation:
  "npc_message (handle_realtime_event env_done (TranscriptDone item_id)
       (deliver (map (\<lambda>d. (env, TranscriptDelta item_id d)) ds) s)) =
     acc_get s item_id @ concat ds
   \<and> acc_items (handle_realtime_event env_done (TranscriptDone item_id)
         (deliver (map (\<lambda>d. (env, TranscriptDelta item_id d)) ds) s)) =
       acc_items (deliver (map (\<lambda>d. (env, TranscriptDelta item_id d)) ds) s)
   \<and> npc_message (handle_realtime_event env_done (TranscriptDone item_id)
         (handle_realtime_event env_done (TranscriptDone item_id)
           (deliver (map (\<lambda>d. (env, TranscriptDelta item_id d)) ds) s))) =
       acc_get s item_id @ concat ds
   \<and> (acc_items s item_id = None \<longrightarrow>
        npc_message (handle_realtime_event env_done (TranscriptDone item_id)
          (deliver (map (\<lambda>d. (env, TranscriptDelta item_id d)) ds) s)) = concat ds
        \<and> npc_message (handle_realtime_event env_done (TranscriptDone item_id) s) = [])"
  using acc_get_deliver_deltas [of env item_id ds s]
  by (simp add: transcript_done_result acc_get_def)

theorem finalize_returns_concatenation_witness:
  "acc_items demo_state ''r9'' = None
   \<and> npc_message (handle_realtime_event demo_env (TranscriptDone ''r9'')
        (deliver (map (\<lambda>d. (demo_env, TranscriptDelta ''r9'' d)) [''a'', ''b'', ''c''])
           demo_state)) = ''abc''
   \<and> npc_message (handle_realtime_event demo_env (TranscriptDone ''r9'') demo_state) = []"
proof -
  have h: "acc_items demo_state ''r9'' = None" by (simp add: demo_state_def)
  show ?thesis
    using h finalize_returns_concatenation
      [where env_done = demo_env and env = demo_env and ds = "[''a'', ''b'', ''c'']"
         and s = demo_state and item_id = "''r9''"]
    by (simp add: acc_get_def)
qed

text \<open>
  Claim C10. Every transcript-done event appends exactly one assistant turn to the turn
  log, whose content is the text accumulated for the item id, and sets the caption to
  that text. For an item id that received no delta the appended turn has empty content
  and the caption becomes the empty string.
\<close>

theorem transcript_done_appends_assistant_turn:
  "conversation_history (handle_realtime_event env (TranscriptDone item_id) s) =
     conversation_history s @ [\<lparr>role = ''assistant'', content = acc_get s item_id\<rparr>]
   \<and> length (conversation_history (handle_realtime_event env (TranscriptDone item_id) s)) =
       Suc (length (conversation_history s))
   \<and> npc_message (handle_realtime_event env (TranscriptDone item_id) s) = acc_get s item_id
   \<and> (acc_items s item_id = None \<longrightarrow>
        conversation_history (handle_realtime_event env (TranscriptDone item_id) s) =
          conversation_history s @ [\<lparr>role = ''assistant'', content = []\<rparr>]
        \<and> npc_message (handle_realtime_event env (TranscriptDone item_id) s) = [])"
  by (simp add: transcript_done_result acc_get_def)

theorem transcript_done_appends_assistant_turn_witness:
  "acc_items demo_state ''r9'' = None
   \<and> conversation_history (handle_realtime_event demo_env (TranscriptDone ''r9'') demo_state) =
       [\<lparr>role = ''system'', content = ''You are HR''\<rparr>, \<lparr>role = ''assistant'', content = []\<rparr>]
   \<and> npc_message (handle_realtime_event demo_env (TranscriptDone ''r9'') demo_state) = []"
proof -
  have h: "acc_items demo_state ''r9'' = None" by (simp add: demo_state_def)
  show ?thesis
    using h transcript_done_appends_assistant_turn [of demo_env "''r9''" demo_state]
    by (simp add: demo_state_def acc_get_def)
qed

section \<open>The connect procedure\<close>

lemma cancel_trace:
  "\<exists>t. trace (case cancel_ongoing_response env s of Inl (e, s') \<Rightarrow> s' | Inr s' \<Rightarrow> s') =
         trace s @ t \<and> connects t = 0 \<and> delays t = [] \<and> appends t = []"
  by (cases "cancel_result env") (auto simp: cancel_ongoing_response_def log_def Let_def)

lemma body_trace:
  "\<exists>t. trace (case handle_event_body env ev s of Inl (e, s') \<Rightarrow> s' | Inr s' \<Rightarrow> s') =
         trace s @ t \<and> connects t = 0 \<and> delays t = [] \<and> appends t = []"
proof (cases ev)
  case SpeechStarted
  show ?thesis
  proof (cases "is_npc_responding s")
    case True
    obtain t where "trace (case cancel_ongoing_response env (s\<lparr>speech_active := True\<rparr>) of
          Inl (e, s') \<Rightarrow> s' | Inr s' \<Rightarrow> s') = trace (s\<lparr>speech_active := True\<rparr>) @ t
        \<and> connects t = 0 \<and> delays t = [] \<and> appends t = []"
      using cancel_trace [of env "s\<lparr>speech_active := True\<rparr>"] by blast
    then show ?thesis using SpeechStarted True
      by (auto simp: Let_def split: sum.splits)
  next
    case False
    then show ?thesis using SpeechStarted by (simp add: Let_def)
  qed
next
  case SpeechDone
  then show ?thesis
    by (auto simp: Let_def log_def split: option.splits outcome.splits)
next
  case (AudioDelta item_id delta)
  then show ?thesis
    by (auto simp: Let_def split: option.splits sum.splits)
qed (simp_all add: Let_def)

lemma handle_trace:
  "\<exists>t. trace (handle_realtime_event env ev s) = trace s @ t \<and>
       connects t = 0 \<and> delays t = [] \<and> appends t = []"
  using body_trace [of env ev s]
  by (auto simp: handle_realtime_event_def split: sum.splits)

lemma deliver_trace:
  "\<exists>t. trace (deliver evs s) = trace s @ t \<and> connects t = 0 \<and> delays t = []"
proof (induction evs arbitrary: s)
  case Nil
  show ?case by simp
next
  case (Cons x evs)
  obtain env ev where x: "x = (env, ev)" by (cases x)
  obtain t1 where t1: "trace (handle_realtime_event env ev s) = trace s @ t1"
      "connects t1 = 0" "delays t1 = []"
    using handle_trace [of env ev s] by blast
  obtain t2 where t2: "trace (deliver evs (handle_realtime_event env ev s)) =
        trace (handle_realtime_event env ev s) @ t2" "connects t2 = 0" "delays t2 = []"
    using Cons.IH [of "handle_realtime_event env ev s"] by blast
  have "trace (deliver (x # evs) s) = trace s @ (t1 @ t2)"
    using x t1 t2 by simp
  moreover have "connects (t1 @ t2) = 0" "delays (t1 @ t2) = []"
    using t1 t2 by (simp_all add: connects_append delays_append)
  ultimately show ?case by blast
qed

lemma run_attempt_trace:
  "\<exists>t. trace (case run_attempt a s of Inl (e, s') \<Rightarrow> s' | Inr s' \<Rightarrow> s') = trace s @ t \<and>
       connects t = 1 \<and> delays t = []"
proof (cases a)
  case (ConnectFails e)
  then show ?thesis by (simp add: run_attempt_def log_def)
next
  case (UpdateFails conn e)
  then show ?thesis by (simp add: run_attempt_def log_def)
next
  case (StreamFails conn evs e)
  let ?s1 = "(log SessionUpdate ((log Connect s)\<lparr>realtime_conn := Some conn\<rparr>))
               \<lparr>realtime_initialized := True\<rparr>"
  obtain t where t: "trace (deliver evs ?s1) = trace ?s1 @ t" "connects t = 0" "delays t = []"
    using deliver_trace [of evs ?s1] by blast
  have "trace (deliver evs ?s1) = trace s @ ([Connect, SessionUpdate] @ t)"
    using t by (simp add: log_def)
  moreover have "connects ([Connect, SessionUpdate] @ t) = 1" "delays ([Connect, SessionUpdate] @ t) = []"
    using t by simp_all
  ultimately show ?thesis using StreamFails by (auto simp: run_attempt_def)
next
  case (StreamEnds conn evs)
  let ?s1 = "(log SessionUpdate ((log Connect s)\<lparr>realtime_conn := Some conn\<rparr>))
               \<lparr>realtime_initialized := True\<rparr>"
  obtain t where t: "trace (deliver evs ?s1) = trace ?s1 @ t" "connects t = 0" "delays t = []"
    using deliver_trace [of evs ?s1] by blast
  have "trace (deliver evs ?s1) = trace s @ ([Connect, SessionUpdate] @ t)"
    using t by (simp add: log_def)
  moreover have "connects ([Connect, SessionUpdate] @ t) = 1" "delays ([Connect, SessionUpdate] @ t) = []"
    using t by simp_all
  ultimately show ?thesis using StreamEnds by (auto simp: run_attempt_def)
qed

lemma run_attempt_fails:
  "attempt_fails a \<Longrightarrow> \<exists>e s'. run_attempt a s = Inl (e, s')"
  by (cases a) (simp_all add: run_attempt_def)


lemma attempts_from_trace:
  "\<exists>t k. trace (attempts_from world a s) = trace s @ t \<and>
         connects t \<le> max_attempts - a \<and> delays t = replicate k 2000"
proof (induction world a s rule: attempts_from.induct)
  case (1 world attempt s)
  show ?case
  proof (cases "attempt < max_attempts")
    case False
    then have "attempts_from world attempt s = s" by (subst attempts_from.simps) simp
    then have "trace (attempts_from world attempt s) = trace s @ [] \<and>
         connects [] \<le> max_attempts - attempt \<and> delays [] = replicate 0 2000"
      by simp
    then show ?thesis by blast
  next
    case True
    obtain t1 where t1:
      "trace (case run_attempt (world attempt) s of Inl (e, s') \<Rightarrow> s' | Inr s' \<Rightarrow> s') = trace s @ t1"
      "connects t1 = 1" "delays t1 = []"
      using run_attempt_trace [of "world attempt" s] by blast
    show ?thesis
    proof (cases "run_attempt (world attempt) s")
      case (Inr s1)
      have step: "attempts_from world attempt s = attempts_from world (Suc attempt) s1"
        using True Inr by (subst attempts_from.simps) simp
      obtain t2 k where t2: "trace (attempts_from world (Suc attempt) s1) = trace s1 @ t2"
        "connects t2 \<le> max_attempts - Suc attempt" "delays t2 = replicate k 2000"
        using "1.IH"(2) [OF True Inr] by blast
      have "trace (attempts_from world attempt s) = trace s @ (t1 @ t2)"
        using step t1 t2 Inr by simp
      moreover have "connects (t1 @ t2) \<le> max_attempts - attempt"
        using t1 t2 True by (simp add: connects_append)
      moreover have "delays (t1 @ t2) = replicate k 2000"
        using t1 t2 by (simp add: delays_append)
      ultimately show ?thesis by blast
    next
      case (Inl x)
      obtain e s1 where x: "x = (e, s1)" by (cases x)
      let ?s2 = "s1\<lparr>realtime_conn := None, realtime_initialized := False\<rparr>"
      have ts1: "trace s1 = trace s @ t1" using t1 Inl x by simp
      show ?thesis
      proof (cases "attempt < max_attempts - 1")
        case again: True
        have step: "attempts_from world attempt s =
              attempts_from world (Suc attempt) (log (Sleep 2000) ?s2)"
          using True Inl x again by (subst attempts_from.simps) (simp add: Let_def)
        obtain t2 k where t2:
          "trace (attempts_from world (Suc attempt) (log (Sleep 2000) ?s2)) =
             trace (log (Sleep 2000) ?s2) @ t2"
          "connects t2 \<le> max_attempts - Suc attempt" "delays t2 = replicate k 2000"
          using "1.IH"(1) [OF True Inl x [symmetric] refl again] by blast
        have "trace (attempts_from world attempt s) = trace s @ (t1 @ [Sleep 2000] @ t2)"
          using step t2 ts1 by (simp add: log_def)
        moreover have "connects (t1 @ [Sleep 2000] @ t2) \<le> max_attempts - attempt"
          using t1 t2 True by (simp add: connects_append)
        moreover have "delays (t1 @ [Sleep 2000] @ t2) = replicate (Suc k) 2000"
          using t1 t2 by (simp add: delays_append)
        ultimately show ?thesis by blast
      next
        case last: False
        have step: "attempts_from world attempt s = ?s2\<lparr>speech_mode := False\<rparr>"
          using True Inl x last by (subst attempts_from.simps) (simp add: Let_def)
        have "trace (attempts_from world attempt s) = trace s @ t1"
          using step ts1 by simp
        moreover have "connects t1 \<le> max_attempts - attempt" using t1 True by simp
        moreover have "delays t1 = replicate 0 2000" using t1 by simp
        ultimately show ?thesis by blast
      qed
    qed
  qed
qed

lemma attempts_from_all_fail:
  "a < max_attempts \<Longrightarrow> (\<forall>i. a \<le> i \<and> i < max_attempts \<longrightarrow> attempt_fails (world i)) \<Longrightarrow>
   \<exists>t. trace (attempts_from world a s) = trace s @ t \<and>
       connects t = max_attempts - a \<and> delays t = replicate (max_attempts - 1 - a) 2000 \<and>
       \<not> speech_mode (attempts_from world a s) \<and>
       realtime_conn (attempts_from world a s) = None \<and>
       \<not> realtime_initialized (attempts_from world a s)"
proof (induction world a s rule: attempts_from.induct)
  case (1 world attempt s)
  have True: "attempt < max_attempts" using "1.prems" by simp
  have "attempt_fails (world attempt)" using "1.prems" by simp
  then obtain e s1 where Inl: "run_attempt (world attempt) s = Inl (e, s1)"
    using run_attempt_fails by blast
  obtain t1 where t1:
    "trace (case run_attempt (world attempt) s of Inl (e, s') \<Rightarrow> s' | Inr s' \<Rightarrow> s') = trace s @ t1"
    "connects t1 = 1" "delays t1 = []"
    using run_attempt_trace [of "world attempt" s] by blast
  let ?s2 = "s1\<lparr>realtime_conn := None, realtime_initialized := False\<rparr>"
  have ts1: "trace s1 = trace s @ t1" using t1 Inl by simp
  show ?case
  proof (cases "attempt < max_attempts - 1")
    case again: True
    have step: "attempts_from world attempt s =
          attempts_from world (Suc attempt) (log (Sleep 2000) ?s2)"
      using True Inl again by (subst attempts_from.simps) (simp add: Let_def)
    have p1: "Suc attempt < max_attempts" using again by simp
    have p2: "\<forall>i. Suc attempt \<le> i \<and> i < max_attempts \<longrightarrow> attempt_fails (world i)"
      using "1.prems" by simp
    obtain t2 where t2:
      "trace (attempts_from world (Suc attempt) (log (Sleep 2000) ?s2)) =
         trace (log (Sleep 2000) ?s2) @ t2"
      "connects t2 = max_attempts - Suc attempt"
      "delays t2 = replicate (max_attempts - 1 - Suc attempt) 2000"
      "\<not> speech_mode (attempts_from world (Suc attempt) (log (Sleep 2000) ?s2))"
      "realtime_conn (attempts_from world (Suc attempt) (log (Sleep 2000) ?s2)) = None"
      "\<not> realtime_initialized (attempts_from world (Suc attempt) (log (Sleep 2000) ?s2))"
      using "1.IH"(1) [OF True Inl refl refl again p1 p2] by blast
    have "trace (attempts_from world attempt s) = trace s @ (t1 @ [Sleep 2000] @ t2)"
      using step t2 ts1 by (simp add: log_def)
    moreover have "connects (t1 @ [Sleep 2000] @ t2) = max_attempts - attempt"
      using t1 t2 True by (simp add: connects_append)
    moreover have "delays (t1 @ [Sleep 2000] @ t2) = replicate (max_attempts - 1 - attempt) 2000"
    proof -
      have "max_attempts - 1 - attempt = Suc (max_attempts - 1 - Suc attempt)"
        using again by simp
      then show ?thesis using t1 t2 by (simp add: delays_append)
    qed
    ultimately show ?thesis using step t2 by auto
  next
    case last: False
    have step: "attempts_from world attempt s = ?s2\<lparr>speech_mode := False\<rparr>"
      using True Inl last by (subst attempts_from.simps) (simp add: Let_def)
    have "trace (attempts_from world attempt s) = trace s @ t1"
      using step ts1 by simp
    moreover have "connects t1 = max_attempts - attempt" using t1 True last by simp
    moreover have "delays t1 = replicate (max_attempts - 1 - attempt) 2000"
      using t1 last by simp
    ultimately show ?thesis using step by auto
  qed
qed

text \<open>
  Claim C5. Whatever the attempts meet, \<open>initialize_realtime\<close> returns, having made at
  most 3 connect calls, and the delays it slept between attempts are in non-decreasing
  order. If the first three attempts all fail, it made exactly 3 connect calls, slept
  2 seconds after the first and after the second, and ends with speech mode disabled,
  no connection and the session not configured.
\<close>

theorem initialize_realtime_bounded:
  "connects (since s (initialize_realtime world s)) \<le> 3
   \<and> sorted (delays (since s (initialize_realtime world s)))
   \<and> ((\<forall>i<3. attempt_fails (world i)) \<longrightarrow>
        \<not> speech_mode (initialize_realtime world s)
        \<and> realtime_conn (initialize_realtime world s) = None
        \<and> \<not> realtime_initialized (initialize_realtime world s)
        \<and> connects (since s (initialize_realtime world s)) = 3
        \<and> delays (since s (initialize_realtime world s)) = [2000, 2000])"
proof -
  let ?s0 = "s\<lparr>realtime_initialized := False\<rparr>"
  obtain t k where t: "trace (attempts_from world 0 ?s0) = trace ?s0 @ t"
    "connects t \<le> max_attempts - 0" "delays t = replicate k 2000"
    using attempts_from_trace [of world 0 ?s0] by blast
  have st: "since s (initialize_realtime world s) = t"
    using t by (simp add: initialize_realtime_def since_def)
  have a: "connects (since s (initialize_realtime world s)) \<le> 3"
    using st t by (simp add: max_attempts_def)
  have b: "sorted (delays (since s (initialize_realtime world s)))"
    using st t by simp
  have c: "\<not> speech_mode (initialize_realtime world s)
        \<and> realtime_conn (initialize_realtime world s) = None
        \<and> \<not> realtime_initialized (initialize_realtime world s)
        \<and> connects (since s (initialize_realtime world s)) = 3
        \<and> delays (since s (initialize_realtime world s)) = [2000, 2000]"
    if f: "\<forall>i<3. attempt_fails (world i)"
  proof -
    have p1: "0 < max_attempts" by (simp add: max_attempts_def)
    have p2: "\<forall>i. 0 \<le> i \<and> i < max_attempts \<longrightarrow> attempt_fails (world i)"
      using f by (simp add: max_attempts_def)
    obtain u where u: "trace (attempts_from world 0 ?s0) = trace ?s0 @ u"
      "connects u = max_attempts - 0" "delays u = replicate (max_attempts - 1 - 0) 2000"
      "\<not> speech_mode (attempts_from world 0 ?s0)"
      "realtime_conn (attempts_from world 0 ?s0) = None"
      "\<not> realtime_initialized (attempts_from world 0 ?s0)"
      using attempts_from_all_fail [OF p1 p2, of ?s0] by blast
    have "u = t" using u t by simp
    then show ?thesis
      using u st by (simp add: initialize_realtime_def max_attempts_def numeral_2_eq_2)
  qed
  show ?thesis using a b c by blast
qed

theorem initialize_realtime_bounded_witness:
  "attempt_fails (ConnectFails (RemoteError ''refused''))
   \<and> \<not> speech_mode (initialize_realtime (\<lambda>i::nat. ConnectFails (RemoteError ''refused'')) demo_state)
   \<and> delays (since demo_state
        (initialize_realtime (\<lambda>i::nat. ConnectFails (RemoteError ''refused'')) demo_state)) = [2000, 2000]"
proof -
  have h: "\<forall>i<3. attempt_fails ((\<lambda>i::nat. ConnectFails (RemoteError ''refused'')) i)" by simp
  show ?thesis
    using h initialize_realtime_bounded [of demo_state "\<lambda>i::nat. ConnectFails (RemoteError ''refused'')"]
    by simp
qed

section \<open>The microphone loop\<close>

lemma mic_iteration_idle:
  "\<not> (speech_mode s \<and> realtime_conn s \<noteq> None \<and> realtime_initialized s) \<Longrightarrow>
   mic_iteration env s = Inr (log (Sleep 100) s)"
  by (auto simp: mic_iteration_def)

lemma fold_apply_write_quiet:
  "\<forall>w\<in>set writes. \<not> enables_speech w \<Longrightarrow> \<not> speech_mode s \<Longrightarrow>
   \<not> speech_mode (fold apply_write writes s) \<and> trace (fold apply_write writes s) = trace s"
proof (induction writes arbitrary: s)
  case Nil
  then show ?case by simp
next
  case (Cons w writes)
  have "\<not> speech_mode (apply_write w s) \<and> trace (apply_write w s) = trace s"
    using Cons.prems by (cases w) simp_all
  then show ?case using Cons.IH [of "apply_write w s"] Cons.prems by simp
qed

lemma mic_loop_quiet:
  "\<forall>r\<in>set rounds. \<forall>w\<in>set (fst r). \<not> enables_speech w \<Longrightarrow> \<not> speech_mode s \<Longrightarrow>
   \<not> speech_mode (mic_loop rounds s) \<and>
   (\<exists>t. trace (mic_loop rounds s) = trace s @ t \<and> appends t = [])"
proof (induction rounds arbitrary: s)
  case Nil
  then show ?case by simp
next
  case (Cons r rounds)
  obtain writes env where r: "r = (writes, env)" by (cases r)
  let ?s1 = "fold apply_write writes s"
  have q: "\<not> speech_mode ?s1 \<and> trace ?s1 = trace s"
    using Cons.prems r fold_apply_write_quiet [of writes s] by simp
  then have it: "mic_iteration env ?s1 = Inr (log (Sleep 100) ?s1)"
    using mic_iteration_idle [of ?s1 env] by simp
  have "\<not> speech_mode (log (Sleep 100) ?s1)" using q by (simp add: log_def)
  then obtain t where t: "\<not> speech_mode (mic_loop rounds (log (Sleep 100) ?s1))"
      "trace (mic_loop rounds (log (Sleep 100) ?s1)) = trace (log (Sleep 100) ?s1) @ t"
      "appends t = []"
    using Cons.IH [of "log (Sleep 100) ?s1"] Cons.prems by auto
  have "trace (mic_loop (r # rounds) s) = trace s @ (Sleep 100 # t)"
    using r it t q by (simp add: log_def)
  moreover have "appends (Sleep 100 # t) = []" using t by simp
  moreover have "\<not> speech_mode (mic_loop (r # rounds) s)" using r it t by simp
  ultimately show ?case by blast
qed

text \<open>
  Claim C8. A pass of the capture loop in a state where speech mode is disabled, or
  there is no connection, or the session is not configured, only sleeps: it reads
  nothing and sends nothing. In every execution that starts with speech mode disabled
  and in which no other party enables it, whatever else is written to the connection
  and the configured flag and whatever the device answers, no append-audio command is
  sent, and speech mode is still disabled afterwards.
\<close>

theorem mic_forwards_only_when_enabled:
  "(\<not> (speech_mode s \<and> realtime_conn s \<noteq> None \<and> realtime_initialized s) \<longrightarrow>
      mic_iteration env s = Inr (log (Sleep 100) s)
      \<and> appends (since s (log (Sleep 100) s)) = [])
   \<and> (\<not> speech_mode s \<and> (\<forall>r\<in>set rounds. \<forall>w\<in>set (fst r). \<not> enables_speech w) \<longrightarrow>
        appends (since s (record_mic_audio stream_open rounds s)) = []
        \<and> \<not> speech_mode (record_mic_audio stream_open rounds s))"
proof -
  have a: "mic_iteration env s = Inr (log (Sleep 100) s)
      \<and> appends (since s (log (Sleep 100) s)) = []"
    if "\<not> (speech_mode s \<and> realtime_conn s \<noteq> None \<and> realtime_initialized s)"
    using that mic_iteration_idle [of s env] by (simp add: since_def log_def)
  have b: "appends (since s (record_mic_audio stream_open rounds s)) = []
        \<and> \<not> speech_mode (record_mic_audio stream_open rounds s)"
    if h: "\<not> speech_mode s \<and> (\<forall>r\<in>set rounds. \<forall>w\<in>set (fst r). \<not> enables_speech w)"
  proof (cases stream_open)
    case Returns
    obtain t where "\<not> speech_mode (mic_loop rounds s)"
      "trace (mic_loop rounds s) = trace s @ t" "appends t = []"
      using mic_loop_quiet [of rounds s] h by blast
    then show ?thesis using Returns by (simp add: record_mic_audio_def since_def)
  next
    case (Raises e)
    then show ?thesis by (simp add: record_mic_audio_def since_def)
  qed
  show ?thesis using a b by blast
qed

theorem mic_forwards_only_when_enabled_witness:
  "\<not> speech_mode (demo_state\<lparr>speech_mode := False\<rparr>)
   \<and> realtime_conn (demo_state\<lparr>speech_mode := False\<rparr>) = Some 1
   \<and> realtime_initialized (demo_state\<lparr>speech_mode := False\<rparr>)
   \<and> \<not> enables_speech (SetInitialized True)
   \<and> \<not> enables_speech (SetConn (Some 2))
   \<and> mic_iteration demo_mic (demo_state\<lparr>speech_mode := False\<rparr>) =
       Inr (log (Sleep 100) (demo_state\<lparr>speech_mode := False\<rparr>))
   \<and> appends (since (demo_state\<lparr>speech_mode := False\<rparr>)
        (record_mic_audio Returns
           [([], demo_mic), ([SetInitialized True, SetConn (Some 2)], demo_mic)]
           (demo_state\<lparr>speech_mode := False\<rparr>))) = []"
proof -
  have h1: "\<not> speech_mode (demo_state\<lparr>speech_mode := False\<rparr>)" by simp
  have h2: "\<forall>r\<in>set [([], demo_mic), ([SetInitialized True, SetConn (Some 2)], demo_mic)].
        \<forall>w\<in>set (fst r). \<not> enables_speech w" by simp
  show ?thesis
    using h1 h2 mic_forwards_only_when_enabled [of "demo_state\<lparr>speech_mode := False\<rparr>" demo_mic
        "[([], demo_mic), ([SetInitialized True, SetConn (Some 2)], demo_mic)]" Returns]
    by (simp add: demo_state_def)
qed

end
